theory Spec2Isabelle
  imports Main "HOL-Library.AList"
begin

section \<open>JavaScript values that occur in the configuration\<close>

text \<open>
  The admission whitelist travels from \<^verbatim>\<open>config.js\<close> to the socket set-up as a plain
  JavaScript value: a number, a string, or an array of such values.
\<close>

datatype jsval = JNum nat | JStr string | JArr "jsval list"

fun is_array :: "jsval \<Rightarrow> bool" where
  "is_array (JArr xs) = True"
| "is_array v = False"

text \<open>
  \<^verbatim>\<open>Array.prototype.push\<close> mutates the array in place and returns its new length. The
  model returns both: the array after the call and the value of the call expression.
\<close>

definition push :: "jsval list \<Rightarrow> jsval \<Rightarrow> jsval list \<times> jsval" where
  "push arr v = (arr @ [v], JNum (length (arr @ [v])))"

section \<open>config.js: the per-environment whitelist\<close>

text \<open>
  \<^verbatim>\<open>const iplist = configUtil.parseIPlist(ipWhitelist)\<close>: the parser lives in
  \<^verbatim>\<open>config/configUtil\<close>, so the parsed array \<open>iplist\<close> is a parameter here.
  The object literal \<^verbatim>\<open>environment\<close> is evaluated top to bottom: the \<^verbatim>\<open>build\<close> entry
  calls \<^verbatim>\<open>iplist.push('::ffff:127.0.0.1')\<close> first, and the later entries refer to the
  same, already extended, array. Only the \<^verbatim>\<open>ipWhitelist\<close> field of each entry is kept.
\<close>

definition environment :: "jsval list \<Rightarrow> (string \<times> jsval) list" where
  "environment iplist =
     (let (iplist', pushed) = push iplist (JStr ''::ffff:127.0.0.1'')
      in [(''build'', pushed),
          (''development'', JArr iplist'),
          (''production'', JArr iplist'),
          (''testWhitelistLocalhost'', JArr iplist'),
          (''testBlockAllhosts'', JArr [JStr ''''])])"

text \<open>
  \<^verbatim>\<open>const ipWhitelist = conf.environment[conf.nodeEnv].ipWhitelist\<close> in
  \<^verbatim>\<open>realTime/setupSocketIO.js\<close>; an unknown environment name has no entry.
\<close>

definition conf_ipWhitelist :: "jsval list \<Rightarrow> string \<Rightarrow> jsval option" where
  "conf_ipWhitelist iplist nodeEnv = map_of (environment iplist) nodeEnv"

section \<open>realTime/setupSocketIO.js: data\<close>

text \<open>
  The file is modelled callback by callback. Each callback of a promise chain is one
  definition that takes the value its promise resolved with; the functions
  \<open>connection\<close>, \<open>on_disconnect\<close> and \<open>setupNamespace\<close> compose the callbacks in
  the order in which they run when nothing else happens in between.
\<close>

definition ONE :: int where
  "ONE = 1"

definition activePerspPrefix :: string where
  "activePerspPrefix = ''activePersp:''"

datatype error =
    SessionStoreError
  | ExpectingValidSession
  | IpNotWhitelisted
  | ResourceNotFoundError

text \<open>Every externally visible effect is appended to a log, in the order it is issued.\<close>

datatype event =
    SocketDisconnect
  | SocketClosedByClient
  | SessionGet string
  | LogSet string
  | PrintRealtimeLogs string
  | RKeys string
  | RGet string
  | RIncr string
  | RDecr string
  | RDel string
  | FindOne "string option"
  | InitializeNamespace string
  | NamespaceCreated string
  | DeleteNamespace string
  | Throw error

text \<open>
  The part of \<^verbatim>\<open>socket.handshake\<close> that the code reads: the \<^verbatim>\<open>cookie\<close> and
  \<^verbatim>\<open>x-forwarded-for\<close> headers, the remote address and the query parameter \<^verbatim>\<open>p\<close>.
  \<open>None\<close> is JavaScript's \<^verbatim>\<open>undefined\<close>. Header values reach the code as strings of
  single-byte characters.
\<close>

record handshake =
  cookie :: "string option"
  xForwardedFor :: "string option"
  address :: "string option"
  query_p :: "string option"

text \<open>
  A socket: its handshake, its id, whether it is connected, and whether the
  \<^verbatim>\<open>'disconnect'\<close> listener of line 270 has been registered on it.
\<close>

record socket =
  hs :: handshake
  sockId :: string
  connected :: bool
  onDisconnect :: bool

definition fresh_socket :: "handshake \<Rightarrow> string \<Rightarrow> socket" where
  "fresh_socket h i = \<lparr>hs = h, sockId = i, connected = True, onDisconnect = False\<rparr>"

text \<open>
  The mutable world: the Redis keys under \<^verbatim>\<open>activePersp:\<close> (an association list, so
  that \<^verbatim>\<open>KEYS\<close> can enumerate it; the values are the integers that \<^verbatim>\<open>INCR\<close> and
  \<^verbatim>\<open>DECR\<close> maintain), the namespaces registered on the socket.io server, and the log.
  The activity-log entries that the same Redis client keeps under the socket id are not
  counters and appear in the log only.
\<close>

record world =
  redis :: "(string \<times> int) list"
  nsps :: "string list"
  trace :: "event list"

text \<open>What \<^verbatim>\<open>redisStore.get(sid, cb)\<close> calls back with: an error, or the session data,
  of which only \<^verbatim>\<open>sessionData.passport.user.name\<close> matters (\<open>None\<close> when the session
  or any object on that path is missing).\<close>

datatype session_reply = SessErr | SessData "string option"

text \<open>
  What the handler reads but does not change: the two feature toggles, the session
  store, the whitelist taken from the configuration, and the perspective table.

  \<^verbatim>\<open>rtUtils.isIpWhitelisted\<close> is defined in \<^verbatim>\<open>realTime/utils\<close>, which is not
  among the sources, so the check is a parameter, the field \<open>isIpWhitelisted\<close>:
  \<open>True\<close> when the call returns, \<open>False\<close> when it throws.

  \<open>findOneUndefined\<close> is what the persistence layer answers to
  \<^verbatim>\<open>findOne({ where: { name: undefined } })\<close>: the name of the row it returns, or
  \<open>None\<close> when it returns nothing or rejects.
\<close>

record env =
  requireAccessToken :: bool
  logEnabled :: bool
  redisStore :: "string \<Rightarrow> session_reply"
  ipWhitelist :: jsval
  isIpWhitelisted :: "string option \<Rightarrow> jsval \<Rightarrow> bool"
  perspectives :: "string list"
  findOneUndefined :: "string option"

section \<open>JavaScript coercions used by the handler\<close>

text \<open>Truthiness of an optional string: \<^verbatim>\<open>undefined\<close> and \<^verbatim>\<open>''\<close> are falsy.\<close>

definition truthy :: "string option \<Rightarrow> bool" where
  "truthy s = (case s of None \<Rightarrow> False | Some v \<Rightarrow> v \<noteq> [])"

text \<open>
  A \<^verbatim>\<open>GET\<close> reply is \<^verbatim>\<open>null\<close> (\<open>None\<close>) or the decimal string of the stored
  integer. \<^verbatim>\<open>!numOfClients\<close> holds for \<^verbatim>\<open>null\<close> only: a non-empty string is truthy,
  also \<^verbatim>\<open>"0"\<close>.
\<close>

definition js_not :: "int option \<Rightarrow> bool" where
  "js_not reply = (case reply of None \<Rightarrow> True | Some n \<Rightarrow> False)"

text \<open>\<^verbatim>\<open>numOfConn <= ONE\<close>: \<^verbatim>\<open>null\<close> converts to 0, a decimal string to its number.\<close>

definition js_le_ONE :: "int option \<Rightarrow> bool" where
  "js_le_ONE reply = (case reply of None \<Rightarrow> 0 \<le> ONE | Some n \<Rightarrow> n \<le> ONE)"

text \<open>The template literal \<^verbatim>\<open>`${activePerspPrefix}${perspName}`\<close>.\<close>

definition perspKey :: "string option \<Rightarrow> string" where
  "perspKey perspName =
     activePerspPrefix @ (case perspName of None \<Rightarrow> ''undefined'' | Some n \<Rightarrow> n)"

text \<open>\<^verbatim>\<open>key.split(':')\<close>.\<close>

fun split_colon :: "string \<Rightarrow> string list" where
  "split_colon [] = [[]]"
| "split_colon (c # cs) =
     (if c = CHR '':'' then [] # split_colon cs
      else (case split_colon cs of [] \<Rightarrow> [[c]] | y # ys \<Rightarrow> (c # y) # ys))"

subsection \<open>The session-id pattern\<close>

text \<open>
  \<^verbatim>\<open>SID_REX = /connect.sid=s%3A([^\.]*)\./\<close>. The dot after \<^verbatim>\<open>connect\<close> is
  unescaped and matches any character but a line terminator; the group takes the
  characters up to the next dot, and a dot must follow. \<open>SID_REX_at\<close> matches at the
  start of the string, \<open>SID_REX_exec\<close> searches from left to right as \<^verbatim>\<open>exec\<close> does
  and returns the group \<^verbatim>\<open>sidMatch[1]\<close>.
\<close>

definition line_terminator :: "char \<Rightarrow> bool" where
  "line_terminator c = (c = CHR 0x0A \<or> c = CHR 0x0D)"

definition SID_REX_at :: "string \<Rightarrow> string option" where
  "SID_REX_at s =
     (if take 7 s = ''connect'' \<and> 7 < length s \<and> \<not> line_terminator (s ! 7)
         \<and> take 8 (drop 8 s) = ''sid=s%3A''
      then (let rest = drop 16 s
            in if dropWhile (\<lambda>c. c \<noteq> CHR ''.'') rest = [] then None
               else Some (takeWhile (\<lambda>c. c \<noteq> CHR ''.'') rest))
      else None)"

fun SID_REX_exec :: "string \<Rightarrow> string option" where
  "SID_REX_exec [] = None"
| "SID_REX_exec (c # cs) =
     (case SID_REX_at (c # cs) of Some m \<Rightarrow> Some m | None \<Rightarrow> SID_REX_exec cs)"

section \<open>The collaborators: Redis, the perspective table, the namespace registry\<close>

definition log :: "event \<Rightarrow> world \<Rightarrow> world" where
  "log e w = w\<lparr>trace := trace w @ [e]\<rparr>"

text \<open>
  Redis executes the commands of one client in the order they are sent, so a command
  takes effect, and its reply is fixed, when it is issued; the callback that receives
  the reply runs later.
\<close>

definition getAsync :: "string \<Rightarrow> world \<Rightarrow> int option \<times> world" where
  "getAsync k w = (map_of (redis w) k, log (RGet k) w)"

definition incrAsync :: "string \<Rightarrow> world \<Rightarrow> int \<times> world" where
  "incrAsync k w =
     (let v = (case map_of (redis w) k of None \<Rightarrow> 0 | Some n \<Rightarrow> n) + 1
      in (v, log (RIncr k) (w\<lparr>redis := AList.update k v (redis w)\<rparr>)))"

definition decrAsync :: "string \<Rightarrow> world \<Rightarrow> int \<times> world" where
  "decrAsync k w =
     (let v = (case map_of (redis w) k of None \<Rightarrow> 0 | Some n \<Rightarrow> n) - 1
      in (v, log (RDecr k) (w\<lparr>redis := AList.update k v (redis w)\<rparr>)))"

definition delAsync :: "string \<Rightarrow> world \<Rightarrow> world" where
  "delAsync k w = log (RDel k) (w\<lparr>redis := AList.delete k (redis w)\<rparr>)"

text \<open>\<^verbatim>\<open>keysAsync(`${activePerspPrefix}*`)\<close>: the keys that start with the prefix.\<close>

definition keysAsync :: "string \<Rightarrow> world \<Rightarrow> string list \<times> world" where
  "keysAsync prefix w =
     (filter (\<lambda>k. take (length prefix) k = prefix) (map fst (redis w)),
      log (RKeys (prefix @ ''*'')) w)"

text \<open>
  \<^verbatim>\<open>perspective.findOne({ where: { name: perspName } })\<close>: the perspective object
  (represented by its name) or \<^verbatim>\<open>null\<close>.
\<close>

definition perspective_row :: "env \<Rightarrow> string option \<Rightarrow> string option" where
  "perspective_row e perspName =
     (case perspName of
        None \<Rightarrow> findOneUndefined e
      | Some n \<Rightarrow> if n \<in> set (perspectives e) then Some n else None)"

definition findOne :: "env \<Rightarrow> string option \<Rightarrow> world \<Rightarrow> string option \<times> world" where
  "findOne e perspName w = (perspective_row e perspName, log (FindOne perspName) w)"

text \<open>
  Modelled from the spec: \<^verbatim>\<open>rtUtils.initializeNamespace\<close> is defined in
  \<^verbatim>\<open>realTime/utils\<close>, which is not among the sources. The spec's \<^verbatim>\<open>ensure\<close>: if a
  channel already exists locally for the topic, return its handle; otherwise construct
  the channel and register it in the local registry. The handle of a topic is its entry
  in \<open>nsps\<close>; \<open>NamespaceCreated\<close> is logged when a channel is constructed.
\<close>

definition initializeNamespace :: "string \<Rightarrow> world \<Rightarrow> world" where
  "initializeNamespace perspObj w =
     (let w1 = log (InitializeNamespace perspObj) w
      in if perspObj \<in> set (nsps w1) then w1
         else log (NamespaceCreated perspObj) (w1\<lparr>nsps := nsps w1 @ [perspObj]\<rparr>))"

text \<open>
  Modelled from the spec: \<^verbatim>\<open>rtUtils.deleteNamespace\<close> is defined in
  \<^verbatim>\<open>realTime/utils\<close>, which is not among the sources. The spec's \<^verbatim>\<open>retire\<close>:
  detaches and discards the local channel for the topic if present; no-op if absent.
\<close>

definition deleteNamespace :: "string \<Rightarrow> world \<Rightarrow> world" where
  "deleteNamespace perspObj w =
     (log (DeleteNamespace perspObj) w)\<lparr>nsps := removeAll perspObj (nsps w)\<rparr>"

section \<open>realTime/setupSocketIO.js: the functions\<close>

subsection \<open>getUserFromSession and printRealtimeLogs\<close>

definition getUserFromSession :: "env \<Rightarrow> string \<Rightarrow> world \<Rightarrow> (error + string) \<times> world" where
  "getUserFromSession e sid w =
     (if requireAccessToken e then
        (let w1 = log (SessionGet sid) w
         in case redisStore e sid of
              SessErr \<Rightarrow> (Inl SessionStoreError, w1)
            | SessData name \<Rightarrow>
                (case name of
                   None \<Rightarrow> (Inl ExpectingValidSession, w1)
                 | Some n \<Rightarrow> if n \<noteq> [] then (Inr n, w1)
                            else (Inl ExpectingValidSession, w1)))
      else (Inr [], w))"

text \<open>\<^verbatim>\<open>printRealtimeLogs\<close> reads and deletes the key \<^verbatim>\<open>socket.id\<close> and prints a line.\<close>

definition printRealtimeLogs :: "socket \<Rightarrow> world \<Rightarrow> world" where
  "printRealtimeLogs sock w = log (PrintRealtimeLogs (sockId sock)) w"

subsection \<open>The disconnect listener (lines 270 to 300)\<close>

text \<open>Lines 282 to 290. The rejection of this chain is handled nowhere.\<close>

definition disconnect_perspObj :: "string option \<Rightarrow> world \<Rightarrow> world" where
  "disconnect_perspObj perspObj w =
     (case perspObj of
        Some obj \<Rightarrow> deleteNamespace obj w
      | None \<Rightarrow> log (Throw ResourceNotFoundError) w)"

text \<open>Lines 278 to 295, the callback of \<^verbatim>\<open>getAsync(perspKey)\<close>.\<close>

definition disconnect_numOfConn :: "env \<Rightarrow> string option \<Rightarrow> int option \<Rightarrow> world \<Rightarrow> world" where
  "disconnect_numOfConn e perspName numOfConn w =
     (if js_le_ONE numOfConn then
        (let w1 = delAsync (perspKey perspName) w;
             (perspObj, w2) = findOne e perspName w1
         in disconnect_perspObj perspObj w2)
      else snd (decrAsync (perspKey perspName) w))"

text \<open>
  Lines 270 to 300, the listener with its reply handled at once: \<^verbatim>\<open>getAsync\<close> is
  issued, and its callback \<open>disconnect_numOfConn\<close> runs on the reply before any other
  command reaches the counter. When other callbacks run in between, the callback works
  on the value read earlier; it is \<open>disconnect_numOfConn\<close> with that value.
\<close>

definition on_disconnect :: "env \<Rightarrow> socket \<Rightarrow> world \<Rightarrow> world" where
  "on_disconnect e sock w =
     (let perspName = query_p (hs sock);
          (numOfConn, w1) = getAsync (perspKey perspName) w;
          w2 = (if logEnabled e then printRealtimeLogs sock w1 else w1)
      in disconnect_numOfConn e perspName numOfConn w2)"

text \<open>
  socket.io closes a socket once: a connected socket becomes disconnected and its
  \<^verbatim>\<open>'disconnect'\<close> listeners run; \<^verbatim>\<open>socket.disconnect()\<close> on the server takes this
  path, as does a close that comes from the client.
\<close>

definition onclose :: "env \<Rightarrow> socket \<Rightarrow> world \<Rightarrow> socket \<times> world" where
  "onclose e sock w =
     (if connected sock
      then (sock\<lparr>connected := False\<rparr>,
            if onDisconnect sock then on_disconnect e sock w else w)
      else (sock, w))"

definition socket_disconnect :: "env \<Rightarrow> socket \<Rightarrow> world \<Rightarrow> socket \<times> world" where
  "socket_disconnect e sock w = onclose e sock (log SocketDisconnect w)"

subsection \<open>The connection listener (lines 203 to 340)\<close>

text \<open>What the promise chain of a connection waits for.\<close>

datatype stage =
    AwaitUser "error + string"
  | AwaitNumOfClients "int option"
  | AwaitPerspObj "string option"
  | Finished

type_synonym conn = "stage \<times> socket \<times> world"

definition disconnect_and_return :: "env \<Rightarrow> socket \<Rightarrow> world \<Rightarrow> conn" where
  "disconnect_and_return e sock w =
     (let (sock', w') = socket_disconnect e sock w in (Finished, sock', w'))"

text \<open>Lines 334 to 339: whatever the chain throws ends here.\<close>

definition catch :: "env \<Rightarrow> error \<Rightarrow> socket \<Rightarrow> world \<Rightarrow> conn" where
  "catch e err sock w = disconnect_and_return e sock (log (Throw err) w)"

text \<open>Lines 203 to 229, the synchronous part of the listener.\<close>

definition on_connection :: "env \<Rightarrow> socket \<Rightarrow> world \<Rightarrow> conn" where
  "on_connection e sock w =
     (if \<not> truthy (cookie (hs sock)) then disconnect_and_return e sock w
      else (case SID_REX_exec (case cookie (hs sock) of None \<Rightarrow> [] | Some c \<Rightarrow> c) of
              None \<Rightarrow> disconnect_and_return e sock w
            | Some sid \<Rightarrow>
                (let (r, w1) = getUserFromSession e sid w in (AwaitUser r, sock, w1))))"

text \<open>
  Lines 230 to 311, the callback of \<^verbatim>\<open>getUserFromSession\<close>. \<^verbatim>\<open>socket.handshake\<close> and
  its \<^verbatim>\<open>headers\<close> and \<^verbatim>\<open>query\<close> exist for every socket.io socket (line 206 has
  already read \<^verbatim>\<open>socket.handshake.headers.cookie\<close>), so the \<^verbatim>\<open>else\<close> of line 249 is
  never taken.
\<close>

definition then_user :: "env \<Rightarrow> string \<Rightarrow> socket \<Rightarrow> world \<Rightarrow> conn" where
  "then_user e user sock w =
     (let ipAddress =
            (if truthy (xForwardedFor (hs sock)) then xForwardedFor (hs sock)
             else if truthy (address (hs sock)) then address (hs sock)
             else None)
      in if \<not> isIpWhitelisted e ipAddress (ipWhitelist e)
         then catch e IpNotWhitelisted sock w
         else (let w1 = (if logEnabled e then log (LogSet (sockId sock)) w else w);
                   perspName = query_p (hs sock);
                   sock1 = sock\<lparr>onDisconnect := True\<rparr>;
                   (numOfClients, w2) = getAsync (perspKey perspName) w1
               in (AwaitNumOfClients numOfClients, sock1, w2)))"

text \<open>Lines 312 to 314 and 330 to 331, the callback of \<^verbatim>\<open>getAsync(perspKey)\<close>.\<close>

definition then_numOfClients :: "env \<Rightarrow> int option \<Rightarrow> socket \<Rightarrow> world \<Rightarrow> conn" where
  "then_numOfClients e numOfClients sock w =
     (let perspName = query_p (hs sock)
      in if js_not numOfClients
         then (let (perspObj, w1) = findOne e perspName w
               in (AwaitPerspObj perspObj, sock, w1))
         else (Finished, sock, snd (incrAsync (perspKey perspName) w)))"

text \<open>Lines 315 to 327, the callbacks of \<^verbatim>\<open>findOne\<close>.\<close>

definition then_perspObj :: "env \<Rightarrow> string option \<Rightarrow> socket \<Rightarrow> world \<Rightarrow> conn" where
  "then_perspObj e perspObj sock w =
     (case perspObj of
        Some obj \<Rightarrow>
          (Finished, sock,
           snd (incrAsync (perspKey (query_p (hs sock))) (initializeNamespace obj w)))
      | None \<Rightarrow> catch e ResourceNotFoundError sock w)"

text \<open>One callback of the chain: the pending promise settles and its handler runs.\<close>

fun resume :: "env \<Rightarrow> conn \<Rightarrow> conn" where
  "resume e (AwaitUser (Inl err), sock, w) = catch e err sock w"
| "resume e (AwaitUser (Inr user), sock, w) = then_user e user sock w"
| "resume e (AwaitNumOfClients numOfClients, sock, w) = then_numOfClients e numOfClients sock w"
| "resume e (AwaitPerspObj perspObj, sock, w) = then_perspObj e perspObj sock w"
| "resume e (Finished, sock, w) = (Finished, sock, w)"

text \<open>
  A connection that nothing interrupts: the listener and the (at most three) callbacks
  of its chain, one after the other.
\<close>

definition connection :: "env \<Rightarrow> socket \<Rightarrow> world \<Rightarrow> socket \<times> world" where
  "connection e sock w = snd (resume e (resume e (resume e (on_connection e sock w))))"

text \<open>
  A connection that the client closes while the chain waits: \<open>k\<close> callbacks have run
  when the close arrives, and the chain carries on afterwards, since nothing in it looks
  at the socket's state. The listener's own Redis and database calls are taken to
  complete before the next callback of the chain runs.
\<close>

definition client_close :: "env \<Rightarrow> conn \<Rightarrow> conn" where
  "client_close e c =
     (case c of (st, sock, w) \<Rightarrow>
        (let (sock', w') = onclose e sock (log SocketClosedByClient w) in (st, sock', w')))"

definition connection_closed_after :: "env \<Rightarrow> nat \<Rightarrow> socket \<Rightarrow> world \<Rightarrow> socket \<times> world" where
  "connection_closed_after e k sock w =
     snd ((resume e ^^ (3 - k)) (client_close e ((resume e ^^ k) (on_connection e sock w))))"

subsection \<open>setupNamespace and init (lines 109 to 151, 342 to 343)\<close>

text \<open>\<^verbatim>\<open>parseInt\<close> of a reply: \<open>None\<close> is \<^verbatim>\<open>NaN\<close>.\<close>

definition parseInt :: "int option \<Rightarrow> int option" where
  "parseInt reply = reply"

text \<open>\<^verbatim>\<open>keys.forEach\<close> issues one \<^verbatim>\<open>getAsync\<close> per key.\<close>

fun get_each :: "string list \<Rightarrow> world \<Rightarrow> (string \<times> int option) list \<times> world" where
  "get_each [] w = ([], w)"
| "get_each (key # keys) w =
     (let (reply, w1) = getAsync key w;
          (replies, w2) = get_each keys w1
      in ((key, reply) # replies, w2))"

text \<open>
  Lines 117 to 128, the callback of one \<^verbatim>\<open>getAsync(key)\<close>: \<open>Some r\<close> when it calls
  \<^verbatim>\<open>findOne\<close>, with the answer \<open>r\<close>.
\<close>

definition setup_numOpenClients ::
  "env \<Rightarrow> string \<Rightarrow> int option \<Rightarrow> world \<Rightarrow> string option option \<times> world" where
  "setup_numOpenClients e key reply w =
     (let numOpenClients = parseInt reply;
          keySplitArr = split_colon key
      in if length keySplitArr > 1
         then (let perspName = keySplitArr ! 1;
                   (perspObj, w1) = findOne e (Some perspName) w
               in (Some perspObj, w1))
         else (None, w))"

fun numOpenClients_each ::
  "env \<Rightarrow> (string \<times> int option) list \<Rightarrow> world \<Rightarrow> string option list \<times> world" where
  "numOpenClients_each e [] w = ([], w)"
| "numOpenClients_each e ((key, reply) # rest) w =
     (let (r, w1) = setup_numOpenClients e key reply w;
          (rs, w2) = numOpenClients_each e rest w1
      in ((case r of None \<Rightarrow> [] | Some perspObj \<Rightarrow> [perspObj]) @ rs, w2))"

text \<open>Lines 129 to 137, the callback of one \<^verbatim>\<open>findOne\<close>; nothing handles its throw.\<close>

definition setup_perspObj :: "string option \<Rightarrow> world \<Rightarrow> world" where
  "setup_perspObj perspObj w =
     (case perspObj of
        Some obj \<Rightarrow> initializeNamespace obj w
      | None \<Rightarrow> log (Throw ResourceNotFoundError) w)"

definition setupNamespace :: "env \<Rightarrow> world \<Rightarrow> world" where
  "setupNamespace e w =
     (let (keys, w1) = keysAsync activePerspPrefix w;
          (replies, w2) = get_each keys w1;
          (perspObjs, w3) = numOpenClients_each e replies w2
      in fold setup_perspObj perspObjs w3)"

text \<open>At start-up \<^verbatim>\<open>init\<close> registers the connection listener and calls \<^verbatim>\<open>setupNamespace\<close>.\<close>

definition init :: "env \<Rightarrow> world \<Rightarrow> world" where
  "init e w = setupNamespace e w"

subsection \<open>Two sockets whose callbacks interleave\<close>

text \<open>
  The process has one event loop: callbacks of different sockets never overlap, but they
  may alternate in any order. A schedule says, callback by callback, whether the chain
  of socket \<open>a\<close> (\<open>True\<close>) or of socket \<open>b\<close> (\<open>False\<close>) moves next; both act on
  the one world.
\<close>

fun interleave ::
  "env \<Rightarrow> bool list \<Rightarrow> stage \<times> socket \<Rightarrow> stage \<times> socket \<Rightarrow> world
     \<Rightarrow> (stage \<times> socket) \<times> (stage \<times> socket) \<times> world" where
  "interleave e [] ca cb w = (ca, cb, w)"
| "interleave e (first # sch) (sta, a) (stb, b) w =
     (if first
      then (case resume e (sta, a, w) of
              (sta', a', w') \<Rightarrow> interleave e sch (sta', a') (stb, b) w')
      else (case resume e (stb, b, w) of
              (stb', b', w') \<Rightarrow> interleave e sch (sta, a) (stb', b') w'))"

text \<open>
  Two first subscribers at once: both sockets have been answered \<^verbatim>\<open>null\<close> by
  \<^verbatim>\<open>getAsync(perspKey)\<close> before either has incremented the counter, and their
  callbacks of lines 312 to 327 run in the order the schedule gives.
\<close>

definition concurrent_first_subscribers ::
  "env \<Rightarrow> bool list \<Rightarrow> socket \<Rightarrow> socket \<Rightarrow> world
     \<Rightarrow> (stage \<times> socket) \<times> (stage \<times> socket) \<times> world" where
  "concurrent_first_subscribers e sch a b w =
     interleave e sch (AwaitNumOfClients None, a) (AwaitNumOfClients None, b) w"

section \<open>Reading the log\<close>

text \<open>\<open>occurs_before a b tr\<close>: some \<open>a\<close> in \<open>tr\<close> is followed, later, by a \<open>b\<close>.\<close>

fun occurs_before :: "'a \<Rightarrow> 'a \<Rightarrow> 'a list \<Rightarrow> bool" where
  "occurs_before a b [] = False"
| "occurs_before a b (x # xs) = (if x = a then b \<in> set xs else occurs_before a b xs)"

text \<open>The two events whose order matters: the ensure call and the increment.\<close>

fun ensure_or_incr :: "event \<Rightarrow> bool" where
  "ensure_or_incr (RIncr k) = True"
| "ensure_or_incr (InitializeNamespace t) = True"
| "ensure_or_incr ev = False"

section \<open>Concrete inputs\<close>

text \<open>
  An environment with authentication off, every address admitted and one perspective
  \<^verbatim>\<open>ops\<close> in the table; a handshake with a well-formed session cookie for a given
  topic; a world with a given counter store and registry and an empty log.
\<close>

definition env_open :: env where
  "env_open = \<lparr>requireAccessToken = False, logEnabled = False,
     redisStore = (\<lambda>sid. SessData None),
     ipWhitelist = JArr [JArr [JStr ''0.0.0.0'', JStr ''255.255.255.255'']],
     isIpWhitelisted = (\<lambda>addr wl. True),
     perspectives = [''ops''], findOneUndefined = None\<rparr>"

definition hs_topic :: "string option \<Rightarrow> handshake" where
  "hs_topic t = \<lparr>cookie = Some ''connect.sid=s%3Aabc.sig'', xForwardedFor = None,
     address = Some ''10.0.0.1'', query_p = t\<rparr>"

definition world_of :: "(string \<times> int) list \<Rightarrow> string list \<Rightarrow> world" where
  "world_of r n = \<lparr>redis = r, nsps = n, trace = []\<rparr>"

section \<open>Invariants of the connection chain\<close>

text \<open>The number of callbacks a stage still has before it.\<close>

fun stage_rank :: "stage \<Rightarrow> nat" where
  "stage_rank (AwaitUser r) = 3"
| "stage_rank (AwaitNumOfClients reply) = 2"
| "stage_rank (AwaitPerspObj obj) = 1"
| "stage_rank Finished = 0"

definition incremented :: "string \<Rightarrow> (string \<times> int) list \<Rightarrow> (string \<times> int) list" where
  "incremented k r0 = AList.update k ((case map_of r0 k of None \<Rightarrow> 0 | Some n \<Rightarrow> n) + 1) r0"

text \<open>
  What holds of the counter store at every stage of an uninterrupted connection that
  started with the store \<open>r0\<close>: it is untouched until the chain has finished, and
  at the end it is either incremented once (socket connected) or untouched (socket
  disconnected).
\<close>

definition chain_inv :: "env \<Rightarrow> handshake \<Rightarrow> (string \<times> int) list \<Rightarrow> nat \<Rightarrow> conn \<Rightarrow> bool" where
  "chain_inv e h r0 n c =
     (case c of (st, sock, w) \<Rightarrow>
        hs sock = h \<and> stage_rank st \<le> n \<and>
        (case st of
           AwaitUser r \<Rightarrow> redis w = r0 \<and> connected sock \<and> \<not> onDisconnect sock
         | AwaitNumOfClients reply \<Rightarrow>
             redis w = r0 \<and> connected sock \<and> reply = map_of r0 (perspKey (query_p h))
         | AwaitPerspObj obj \<Rightarrow>
             redis w = r0 \<and> connected sock \<and> map_of r0 (perspKey (query_p h)) = None
             \<and> obj = perspective_row e (query_p h)
         | Finished \<Rightarrow>
             if connected sock
             then redis w = incremented (perspKey (query_p h)) r0
                  \<and> (map_of r0 (perspKey (query_p h)) = None
                       \<longrightarrow> perspective_row e (query_p h) \<noteq> None)
             else redis w = r0))"

text \<open>
  The same for the ensure and increment events of a log that started empty: none until
  the chain has finished, and at the end one increment, preceded by one ensure call only
  if the counter key was absent at the start.
\<close>

definition trace_inv :: "handshake \<Rightarrow> (string \<times> int) list \<Rightarrow> conn \<Rightarrow> bool" where
  "trace_inv h r0 c =
     (case c of (st, sock, w) \<Rightarrow>
        hs sock = h \<and>
        (case st of
           Finished \<Rightarrow>
             if connected sock
             then filter ensure_or_incr (trace w) = [RIncr (perspKey (query_p h))]
                  \<or> (\<exists>obj. map_of r0 (perspKey (query_p h)) = None
                         \<and> filter ensure_or_incr (trace w)
                              = [InitializeNamespace obj, RIncr (perspKey (query_p h))])
             else filter ensure_or_incr (trace w) = []
         | _ \<Rightarrow> connected sock \<and> filter ensure_or_incr (trace w) = []))"

text \<open>
  For two first subscribers of the topic \<open>t\<close>: each chain is waiting for the counter
  reply, waiting for the perspective, or finished, and the log, the registry and the
  counter reflect how many of the two have finished.
\<close>

definition finished_count :: "stage \<Rightarrow> stage \<Rightarrow> nat" where
  "finished_count sa sb = (if sa = Finished then 1 else 0) + (if sb = Finished then 1 else 0)"

definition first_stage :: "string \<Rightarrow> stage \<Rightarrow> bool" where
  "first_stage t st =
     (st = AwaitNumOfClients None \<or> st = AwaitPerspObj (Some t) \<or> st = Finished)"

definition race_inv :: "string \<Rightarrow> stage \<Rightarrow> stage \<Rightarrow> world \<Rightarrow> bool" where
  "race_inv t sa sb w =
     (first_stage t sa \<and> first_stage t sb
      \<and> count_list (trace w) (InitializeNamespace t) = finished_count sa sb
      \<and> count_list (trace w) (NamespaceCreated t) = min (finished_count sa sb) 1
      \<and> count_list (nsps w) t = min (finished_count sa sb) 1
      \<and> map_of (redis w) (perspKey (Some t))
          = (if finished_count sa sb = 0 then None else Some (int (finished_count sa sb))))"

section \<open>Properties of the configuration\<close>

text \<open>
  Claim C10. In the \<^verbatim>\<open>build\<close> environment the whitelist handed to the gate's address
  check is the number returned by \<^verbatim>\<open>push\<close> (the new length of the parsed list), and is
  not an array of ranges.
\<close>

theorem build_ipWhitelist_is_push_result:
  "conf_ipWhitelist iplist ''build'' = Some (JNum (Suc (length iplist)))
   \<and> \<not> is_array (the (conf_ipWhitelist iplist ''build''))"
  by (simp add: conf_ipWhitelist_def environment_def push_def)

section \<open>Basic facts about the collaborators\<close>

lemma log_fields [simp]:
  "redis (log ev w) = redis w" "nsps (log ev w) = nsps w" "trace (log ev w) = trace w @ [ev]"
  by (simp_all add: log_def)

lemma delete_absent: "map_of al k = None \<Longrightarrow> AList.delete k al = al"
  by (simp add: map_of_eq_None_iff)

lemma occurs_before_filter:
  "P a \<Longrightarrow> P b \<Longrightarrow> occurs_before a b (filter P xs) = occurs_before a b xs"
  by (induction xs) auto

section \<open>What the disconnect listener does to the world\<close>

lemmas disconnect_unfold = on_disconnect_def disconnect_numOfConn_def disconnect_perspObj_def
  getAsync_def delAsync_def decrAsync_def findOne_def printRealtimeLogs_def deleteNamespace_def
  Let_def

lemma on_disconnect_redis:
  "redis (on_disconnect e sock w) =
     (if js_le_ONE (map_of (redis w) (perspKey (query_p (hs sock))))
      then AList.delete (perspKey (query_p (hs sock))) (redis w)
      else AList.update (perspKey (query_p (hs sock)))
             ((case map_of (redis w) (perspKey (query_p (hs sock))) of
                 None \<Rightarrow> 0 | Some n \<Rightarrow> n) - 1)
             (redis w))"
  by (simp add: disconnect_unfold split: option.split)

lemma on_disconnect_nsps:
  "nsps (on_disconnect e sock w) =
     (if js_le_ONE (map_of (redis w) (perspKey (query_p (hs sock))))
      then (case perspective_row e (query_p (hs sock)) of
              None \<Rightarrow> nsps w | Some obj \<Rightarrow> removeAll obj (nsps w))
      else nsps w)"
  by (simp add: disconnect_unfold split: option.split)

lemma on_disconnect_trace:
  "trace (on_disconnect e sock w) =
     trace w @ [RGet (perspKey (query_p (hs sock)))]
       @ (if logEnabled e then [PrintRealtimeLogs (sockId sock)] else [])
       @ (if js_le_ONE (map_of (redis w) (perspKey (query_p (hs sock))))
          then [RDel (perspKey (query_p (hs sock))), FindOne (query_p (hs sock)),
                (case perspective_row e (query_p (hs sock)) of
                   None \<Rightarrow> Throw ResourceNotFoundError | Some obj \<Rightarrow> DeleteNamespace obj)]
          else [RDecr (perspKey (query_p (hs sock)))])"
  by (simp add: disconnect_unfold split: option.split)

lemma on_disconnect_quiet:
  "filter ensure_or_incr (trace (on_disconnect e sock w)) = filter ensure_or_incr (trace w)"
  by (simp add: on_disconnect_trace split: option.split)

lemma socket_disconnect_unregistered:
  "connected sock \<Longrightarrow> \<not> onDisconnect sock \<Longrightarrow>
   socket_disconnect e sock w = (sock\<lparr>connected := False\<rparr>, log SocketDisconnect w)"
  by (simp add: socket_disconnect_def onclose_def)

lemma socket_disconnect_registered:
  "connected sock \<Longrightarrow> onDisconnect sock \<Longrightarrow>
   socket_disconnect e sock w =
     (sock\<lparr>connected := False\<rparr>, on_disconnect e sock (log SocketDisconnect w))"
  by (simp add: socket_disconnect_def onclose_def)

lemma socket_disconnect_quiet:
  "connected sock \<Longrightarrow>
   \<not> connected (fst (socket_disconnect e sock w))
   \<and> hs (fst (socket_disconnect e sock w)) = hs sock
   \<and> filter ensure_or_incr (trace (snd (socket_disconnect e sock w)))
       = filter ensure_or_incr (trace w)"
  by (simp add: socket_disconnect_def onclose_def on_disconnect_quiet)

section \<open>The counter store along an uninterrupted connection\<close>

lemma on_connection_inv: "chain_inv e h (redis w) 3 (on_connection e (fresh_socket h i) w)"
  by (simp add: chain_inv_def on_connection_def disconnect_and_return_def
      socket_disconnect_unregistered getUserFromSession_def fresh_socket_def Let_def
      split: option.split session_reply.split)

text \<open>
  The catch handler disconnects the socket. If the disconnect listener is registered it
  runs now; it reads the key, and when the key is absent its \<^verbatim>\<open>DEL\<close> changes nothing.
\<close>

lemma catch_inv:
  assumes "hs sock = h" "connected sock" "redis w = r0"
    "onDisconnect sock \<longrightarrow> map_of r0 (perspKey (query_p h)) = None"
  shows "chain_inv e h r0 n (catch e err sock w)"
proof (cases "onDisconnect sock")
  case True
  with assms show ?thesis
    by (simp add: chain_inv_def catch_def disconnect_and_return_def
        socket_disconnect_registered on_disconnect_redis js_le_ONE_def ONE_def delete_absent)
next
  case False
  with assms show ?thesis
    by (simp add: chain_inv_def catch_def disconnect_and_return_def
        socket_disconnect_unregistered)
qed

lemma resume_inv:
  assumes "chain_inv e h r0 n c"
  shows "chain_inv e h r0 (n - 1) (resume e c)"
proof -
  obtain st sock w where c: "c = (st, sock, w)" by (cases c)
  show ?thesis
  proof (cases st)
    case (AwaitUser r)
    with assms c have f: "hs sock = h" "redis w = r0" "connected sock" "\<not> onDisconnect sock"
        "3 \<le> n"
      by (simp_all add: chain_inv_def)
    show ?thesis
    proof (cases r)
      case (Inl err)
      with f c AwaitUser show ?thesis
        by (simp add: catch_inv)
    next
      case (Inr user)
      show ?thesis
      proof (cases "isIpWhitelisted e
          (if truthy (xForwardedFor (hs sock)) then xForwardedFor (hs sock)
           else if truthy (address (hs sock)) then address (hs sock) else None) (ipWhitelist e)")
        case True
        with f c AwaitUser Inr show ?thesis
          by (simp add: then_user_def getAsync_def Let_def chain_inv_def)
      next
        case False
        with f c AwaitUser Inr show ?thesis
          by (simp add: then_user_def Let_def catch_inv)
      qed
    qed
  next
    case (AwaitNumOfClients reply)
    with assms c show ?thesis
      by (auto simp: chain_inv_def then_numOfClients_def findOne_def incrAsync_def
          incremented_def js_not_def Let_def split: option.splits)
  next
    case (AwaitPerspObj obj)
    with assms c have f: "hs sock = h" "redis w = r0" "connected sock"
        "map_of r0 (perspKey (query_p h)) = None" "perspective_row e (query_p h) = obj"
      by (simp_all add: chain_inv_def)
    show ?thesis
    proof (cases obj)
      case None
      with f c AwaitPerspObj show ?thesis
        by (simp add: then_perspObj_def catch_inv)
    next
      case (Some row)
      with f c AwaitPerspObj show ?thesis
        by (simp add: then_perspObj_def chain_inv_def incrAsync_def initializeNamespace_def
            incremented_def Let_def)
    qed
  next
    case Finished
    with assms c show ?thesis
      by (simp add: chain_inv_def)
  qed
qed

lemma connection_outcome:
  "hs (fst (connection e (fresh_socket h i) w)) = h \<and>
   (if connected (fst (connection e (fresh_socket h i) w))
    then redis (snd (connection e (fresh_socket h i) w))
           = incremented (perspKey (query_p h)) (redis w)
         \<and> (map_of (redis w) (perspKey (query_p h)) = None
              \<longrightarrow> perspective_row e (query_p h) \<noteq> None)
    else redis (snd (connection e (fresh_socket h i) w)) = redis w)"
proof -
  let ?c = "resume e (resume e (resume e (on_connection e (fresh_socket h i) w)))"
  have "chain_inv e h (redis w) 0 ?c"
    using resume_inv [OF resume_inv [OF resume_inv [OF on_connection_inv]]] by simp
  then show ?thesis
    by (cases ?c) (auto simp: chain_inv_def connection_def split: stage.splits if_splits)
qed

section \<open>The ensure and increment events along an uninterrupted connection\<close>

lemma catch_trace_inv:
  assumes "hs sock = h" "connected sock" "filter ensure_or_incr (trace w) = []"
  shows "trace_inv h r0 (catch e err sock w)"
proof -
  obtain s' w' where sd: "socket_disconnect e sock (log (Throw err) w) = (s', w')"
    by (cases "socket_disconnect e sock (log (Throw err) w)")
  with socket_disconnect_quiet [of sock e "log (Throw err) w"] assms
  have "\<not> connected s'" "hs s' = h" "filter ensure_or_incr (trace w') = []"
    by simp_all
  then show ?thesis
    by (simp add: trace_inv_def catch_def disconnect_and_return_def sd)
qed

lemma on_connection_trace_inv:
  "trace_inv h r0 (on_connection e (fresh_socket h i) (w\<lparr>trace := []\<rparr>))"
  by (simp add: trace_inv_def on_connection_def disconnect_and_return_def
      socket_disconnect_unregistered getUserFromSession_def fresh_socket_def Let_def
      split: option.split session_reply.split)

lemma resume_trace_inv:
  assumes "trace_inv h r0 c" "chain_inv e h r0 n c"
  shows "trace_inv h r0 (resume e c)"
proof -
  obtain st sock w where c: "c = (st, sock, w)" by (cases c)
  show ?thesis
  proof (cases st)
    case (AwaitUser r)
    with assms c have f: "hs sock = h" "connected sock" "filter ensure_or_incr (trace w) = []"
      by (simp_all add: trace_inv_def)
    show ?thesis
    proof (cases r)
      case (Inl err)
      with f c AwaitUser show ?thesis
        by (simp add: catch_trace_inv)
    next
      case (Inr user)
      show ?thesis
      proof (cases "isIpWhitelisted e
          (if truthy (xForwardedFor (hs sock)) then xForwardedFor (hs sock)
           else if truthy (address (hs sock)) then address (hs sock) else None) (ipWhitelist e)")
        case True
        with f c AwaitUser Inr show ?thesis
          by (simp add: then_user_def getAsync_def Let_def trace_inv_def)
      next
        case False
        with f c AwaitUser Inr show ?thesis
          by (simp add: then_user_def Let_def catch_trace_inv)
      qed
    qed
  next
    case (AwaitNumOfClients reply)
    with assms c show ?thesis
      by (simp add: trace_inv_def then_numOfClients_def findOne_def incrAsync_def Let_def)
  next
    case (AwaitPerspObj obj)
    with assms c have f: "hs sock = h" "connected sock" "filter ensure_or_incr (trace w) = []"
        "map_of r0 (perspKey (query_p h)) = None"
      by (simp_all add: trace_inv_def chain_inv_def)
    show ?thesis
    proof (cases obj)
      case None
      with f c AwaitPerspObj show ?thesis
        by (simp add: then_perspObj_def catch_trace_inv)
    next
      case (Some row)
      with f c AwaitPerspObj show ?thesis
        by (simp add: then_perspObj_def trace_inv_def incrAsync_def initializeNamespace_def
            Let_def)
    qed
  next
    case Finished
    with assms c show ?thesis
      by simp
  qed
qed

lemma connection_events:
  "if connected (fst (connection e (fresh_socket h i) (w\<lparr>trace := []\<rparr>)))
   then filter ensure_or_incr (trace (snd (connection e (fresh_socket h i) (w\<lparr>trace := []\<rparr>))))
          = [RIncr (perspKey (query_p h))]
        \<or> (\<exists>obj. map_of (redis w) (perspKey (query_p h)) = None
               \<and> filter ensure_or_incr
                    (trace (snd (connection e (fresh_socket h i) (w\<lparr>trace := []\<rparr>))))
                  = [InitializeNamespace obj, RIncr (perspKey (query_p h))])
   else filter ensure_or_incr (trace (snd (connection e (fresh_socket h i) (w\<lparr>trace := []\<rparr>))))
          = []"
proof -
  let ?start = "on_connection e (fresh_socket h i) (w\<lparr>trace := []\<rparr>)"
  let ?c = "resume e (resume e (resume e ?start))"
  have c0: "chain_inv e h (redis w) 3 ?start"
    using on_connection_inv [of e h "w\<lparr>trace := []\<rparr>" i] by simp
  have c1: "chain_inv e h (redis w) 2 (resume e ?start)"
    using resume_inv [OF c0] by simp
  have c2: "chain_inv e h (redis w) 1 (resume e (resume e ?start))"
    using resume_inv [OF c1] by simp
  have c3: "chain_inv e h (redis w) 0 ?c"
    using resume_inv [OF c2] by simp
  have "trace_inv h (redis w) ?c"
    by (intro resume_trace_inv [OF _ c2] resume_trace_inv [OF _ c1] resume_trace_inv [OF _ c0]
        on_connection_trace_inv)
  with c3 show ?thesis
    by (cases ?c) (auto simp: trace_inv_def chain_inv_def connection_def split: stage.splits if_splits)
qed

section \<open>Rejection at the handshake\<close>

text \<open>
  What the first two checks of the listener do: with no cookie header (or an empty one),
  or with a cookie in which \<^verbatim>\<open>SID_REX\<close> finds no match, the socket is disconnected at
  once, the counter store is unchanged, and the disconnect is the only effect.
\<close>

lemma no_sid_match_disconnects:
  assumes "cookie h = None \<or> cookie h = Some []
           \<or> (\<exists>c. cookie h = Some c \<and> SID_REX_exec c = None)"
  shows "\<not> connected (fst (connection e (fresh_socket h i) w))
       \<and> redis (snd (connection e (fresh_socket h i) w)) = redis w
       \<and> trace (snd (connection e (fresh_socket h i) w)) = trace w @ [SocketDisconnect]"
proof -
  have "on_connection e (fresh_socket h i) w
      = (Finished, (fresh_socket h i)\<lparr>connected := False\<rparr>, log SocketDisconnect w)"
    using assms
    by (auto simp: on_connection_def disconnect_and_return_def socket_disconnect_unregistered
        fresh_socket_def truthy_def)
  then show ?thesis
    by (simp add: connection_def)
qed

text \<open>
  Claim C8 asks that a handshake whose cookie does not match
  \<^verbatim>\<open>connect.sid=s%3A<id>.<signature>\<close> be disconnected at once, with no session-store
  lookup and no counter mutation. The dot after \<^verbatim>\<open>connect\<close> in \<^verbatim>\<open>SID_REX\<close> is not
  escaped, so the cookie \<^verbatim>\<open>connectXsid=s%3AxyZ.123\<close>, which is not of that form, matches
  with the session id \<^verbatim>\<open>xyZ\<close>: the session store is asked for it, and with a session
  stored under that id the socket is admitted, stays connected, and the counter of its
  topic is incremented.
\<close>

theorem unescaped_dot_admits_other_cookie:
  "SID_REX_exec ''connectXsid=s%3AxyZ.123'' = Some ''xyZ''
   \<and> connection
       (env_open\<lparr>requireAccessToken := True,
                  redisStore := (\<lambda>sid. if sid = ''xyZ'' then SessData (Some ''alice'')
                                       else SessData None)\<rparr>)
       (fresh_socket ((hs_topic (Some ''ops''))\<lparr>cookie := Some ''connectXsid=s%3AxyZ.123''\<rparr>)
          ''s1'')
       (world_of [] [])
     = (\<lparr>hs = (hs_topic (Some ''ops''))\<lparr>cookie := Some ''connectXsid=s%3AxyZ.123''\<rparr>,
         sockId = ''s1'', connected = True, onDisconnect = True\<rparr>,
        \<lparr>redis = [(''activePersp:ops'', 1)], nsps = [''ops''],
         trace = [SessionGet ''xyZ'', RGet ''activePersp:ops'', FindOne (Some ''ops''),
                  InitializeNamespace ''ops'', NamespaceCreated ''ops'',
                  RIncr ''activePersp:ops'']\<rparr>)"
  by code_simp

section \<open>A topic that persistent storage does not know\<close>

text \<open>
  Claim C1, as amended. If a client connects to a topic name that does not exist in
  persistent storage and the topic has no counter key in the store, the attempt ends with
  the socket disconnected and the counter store as it was before the attempt; no
  increment is issued at any point of the attempt, so there is nothing to compensate.
\<close>

theorem unknown_topic_first_subscriber_rejected:
  assumes "query_p h = Some t" "t \<notin> set (perspectives e)"
    "map_of (redis w) (perspKey (Some t)) = None"
  shows "\<not> connected (fst (connection e (fresh_socket h i) w))
       \<and> redis (snd (connection e (fresh_socket h i) w)) = redis w
       \<and> RIncr k \<notin> set (trace (snd (connection e (fresh_socket h i) (w\<lparr>trace := []\<rparr>))))"
proof -
  have row: "perspective_row e (query_p h) = None"
    using assms by (simp add: perspective_row_def)
  have 1: "\<not> connected (fst (connection e (fresh_socket h i) w))"
    using assms row connection_outcome [of e h i w] by (auto split: if_splits)
  then have 2: "redis (snd (connection e (fresh_socket h i) w)) = redis w"
    using connection_outcome [of e h i w] by simp
  have "\<not> connected (fst (connection e (fresh_socket h i) (w\<lparr>trace := []\<rparr>)))"
    using assms row connection_outcome [of e h i "w\<lparr>trace := []\<rparr>"] by (auto split: if_splits)
  then have "filter ensure_or_incr
      (trace (snd (connection e (fresh_socket h i) (w\<lparr>trace := []\<rparr>)))) = []"
    using connection_events [of e h i w] by simp
  then have "RIncr k \<notin> set (filter ensure_or_incr
      (trace (snd (connection e (fresh_socket h i) (w\<lparr>trace := []\<rparr>)))))"
    by simp
  then have 3: "RIncr k \<notin> set (trace (snd (connection e (fresh_socket h i) (w\<lparr>trace := []\<rparr>))))"
    by simp
  from 1 2 3 show ?thesis by blast
qed

text \<open>
  The theorem for C1 at a connection to the unknown topic \<^verbatim>\<open>nope\<close> while another
  topic has a counter.
\<close>

theorem unknown_topic_first_subscriber_rejected_witness:
  "\<not> connected (fst (connection env_open (fresh_socket (hs_topic (Some ''nope'')) ''s1'')
          (world_of [(''activePersp:ops'', 1)] [''ops''])))
   \<and> redis (snd (connection env_open (fresh_socket (hs_topic (Some ''nope'')) ''s1'')
          (world_of [(''activePersp:ops'', 1)] [''ops''])))
       = redis (world_of [(''activePersp:ops'', 1)] [''ops''])
   \<and> RIncr ''activePersp:nope''
       \<notin> set (trace (snd (connection env_open (fresh_socket (hs_topic (Some ''nope'')) ''s1'')
                ((world_of [(''activePersp:ops'', 1)] [''ops''])\<lparr>trace := []\<rparr>))))"
proof -
  have 1: "query_p (hs_topic (Some ''nope'')) = Some ''nope''"
    by (simp add: hs_topic_def)
  have 2: "''nope'' \<notin> set (perspectives env_open)"
    by (simp add: env_open_def)
  have 3: "map_of (redis (world_of [(''activePersp:ops'', 1)] [''ops''])) (perspKey (Some ''nope''))
         = None"
    by (simp add: world_of_def perspKey_def activePerspPrefix_def)
  show ?thesis
    by (rule unknown_topic_first_subscriber_rejected [OF 1 2 3])
qed

text \<open>
  Against C1 as stated: the topic \<^verbatim>\<open>nope\<close> is not in persistent storage, but its
  counter key exists with value 1. The connection is admitted, stays connected, and the
  counter goes to 2; the topic is never looked up.
\<close>

theorem unknown_topic_with_counter_admitted:
  "''nope'' \<notin> set (perspectives env_open)
   \<and> connection env_open (fresh_socket (hs_topic (Some ''nope'')) ''s1'')
       (world_of [(''activePersp:nope'', 1)] [])
     = (\<lparr>hs = hs_topic (Some ''nope''), sockId = ''s1'', connected = True, onDisconnect = True\<rparr>,
        \<lparr>redis = [(''activePersp:nope'', 2)], nsps = [],
         trace = [RGet ''activePersp:nope'', RIncr ''activePersp:nope'']\<rparr>)"
  by code_simp

section \<open>The order of ensure and increment\<close>

text \<open>
  Claim C2, as amended. In every connection the increment never precedes the ensure
  step: when the namespace is ensured, the ensure call comes first and the increment
  follows it; and when the counter key already exists, no ensure call is made at all, the
  increment standing alone.
\<close>

theorem increment_never_precedes_ensure:
  "\<not> occurs_before (RIncr k) (InitializeNamespace t)
        (trace (snd (connection e (fresh_socket h i) (w\<lparr>trace := []\<rparr>))))
   \<and> (InitializeNamespace t
         \<in> set (trace (snd (connection e (fresh_socket h i) (w\<lparr>trace := []\<rparr>))))
        \<longrightarrow> occurs_before (InitializeNamespace t) (RIncr (perspKey (query_p h)))
              (trace (snd (connection e (fresh_socket h i) (w\<lparr>trace := []\<rparr>)))))
   \<and> (map_of (redis w) (perspKey (query_p h)) \<noteq> None
        \<longrightarrow> InitializeNamespace t
              \<notin> set (trace (snd (connection e (fresh_socket h i) (w\<lparr>trace := []\<rparr>)))))"
proof -
  let ?tr = "trace (snd (connection e (fresh_socket h i) (w\<lparr>trace := []\<rparr>)))"
  let ?f = "filter ensure_or_incr ?tr"
  have 1: "occurs_before (RIncr k) (InitializeNamespace t) ?tr
         = occurs_before (RIncr k) (InitializeNamespace t) ?f"
    by (simp add: occurs_before_filter)
  have 2: "occurs_before (InitializeNamespace t) (RIncr (perspKey (query_p h))) ?tr
         = occurs_before (InitializeNamespace t) (RIncr (perspKey (query_p h))) ?f"
    by (simp add: occurs_before_filter)
  have 3: "InitializeNamespace t \<in> set ?tr \<Longrightarrow> InitializeNamespace t \<in> set ?f"
    by simp
  from connection_events [of e h i w]
  consider (none) "?f = []" | (incr) "?f = [RIncr (perspKey (query_p h))]"
    | (both) obj where "map_of (redis w) (perspKey (query_p h)) = None"
        "?f = [InitializeNamespace obj, RIncr (perspKey (query_p h))]"
    by (auto split: if_splits)
  then show ?thesis
  proof cases
    case none
    have "\<not> occurs_before (RIncr k) (InitializeNamespace t) ?tr"
      unfolding 1 none by simp
    moreover have "InitializeNamespace t \<notin> set ?tr"
      using 3 unfolding none by auto
    ultimately show ?thesis by blast
  next
    case incr
    have "\<not> occurs_before (RIncr k) (InitializeNamespace t) ?tr"
      unfolding 1 incr by simp
    moreover have "InitializeNamespace t \<notin> set ?tr"
      using 3 unfolding incr by auto
    ultimately show ?thesis by blast
  next
    case both
    have "\<not> occurs_before (RIncr k) (InitializeNamespace t) ?tr"
      unfolding 1 both(2) by simp
    moreover have "InitializeNamespace t \<in> set ?tr \<Longrightarrow>
        occurs_before (InitializeNamespace t) (RIncr (perspKey (query_p h))) ?tr"
      using 3 unfolding 2 both(2) by auto
    ultimately show ?thesis using both(1) by blast
  qed
qed

text \<open>
  The theorem for C2 at the first subscriber of the existing topic \<^verbatim>\<open>ops\<close>, and at a
  second subscriber of it.
\<close>

theorem increment_never_precedes_ensure_witness:
  "InitializeNamespace ''ops''
     \<in> set (trace (snd (connection env_open (fresh_socket (hs_topic (Some ''ops'')) ''s1'')
              ((world_of [] [])\<lparr>trace := []\<rparr>))))
   \<and> \<not> occurs_before (RIncr ''activePersp:ops'') (InitializeNamespace ''ops'')
        (trace (snd (connection env_open (fresh_socket (hs_topic (Some ''ops'')) ''s1'')
              ((world_of [] [])\<lparr>trace := []\<rparr>))))
   \<and> occurs_before (InitializeNamespace ''ops'') (RIncr (perspKey (query_p (hs_topic (Some ''ops'')))))
        (trace (snd (connection env_open (fresh_socket (hs_topic (Some ''ops'')) ''s1'')
              ((world_of [] [])\<lparr>trace := []\<rparr>))))
   \<and> InitializeNamespace ''ops''
       \<notin> set (trace (snd (connection env_open (fresh_socket (hs_topic (Some ''ops'')) ''s2'')
                ((world_of [(''activePersp:ops'', 1)] [''ops''])\<lparr>trace := []\<rparr>))))"
proof -
  have m: "InitializeNamespace ''ops''
     \<in> set (trace (snd (connection env_open (fresh_socket (hs_topic (Some ''ops'')) ''s1'')
              ((world_of [] [])\<lparr>trace := []\<rparr>))))"
    by code_simp
  have n: "map_of (redis (world_of [(''activePersp:ops'', 1)] [''ops'']))
             (perspKey (query_p (hs_topic (Some ''ops'')))) \<noteq> None"
    by code_simp
  from increment_never_precedes_ensure [of "''activePersp:ops''" "''ops''" env_open
      "hs_topic (Some ''ops'')" "''s1''" "world_of [] []"] m
    increment_never_precedes_ensure [of "''activePersp:ops''" "''ops''" env_open
      "hs_topic (Some ''ops'')" "''s2''" "world_of [(''activePersp:ops'', 1)] [''ops'']"] n
  show ?thesis by blast
qed

text \<open>
  Against C2 as stated: the first subscriber of \<^verbatim>\<open>ops\<close> is admitted and stays
  connected; the namespace is ensured and created first and the increment is the last
  event, so the increment does not come before the ensure step.
\<close>

theorem first_subscriber_ensures_before_increment:
  "connection env_open (fresh_socket (hs_topic (Some ''ops'')) ''s1'') (world_of [] [])
     = (\<lparr>hs = hs_topic (Some ''ops''), sockId = ''s1'', connected = True, onDisconnect = True\<rparr>,
        \<lparr>redis = [(''activePersp:ops'', 1)], nsps = [''ops''],
         trace = [RGet ''activePersp:ops'', FindOne (Some ''ops''), InitializeNamespace ''ops'',
                  NamespaceCreated ''ops'', RIncr ''activePersp:ops'']\<rparr>)
   \<and> \<not> occurs_before (RIncr ''activePersp:ops'') (InitializeNamespace ''ops'')
        (trace (snd (connection env_open (fresh_socket (hs_topic (Some ''ops'')) ''s1'')
           (world_of [] []))))"
  by code_simp

section \<open>Server-side rejection and client-side close before the increment\<close>

text \<open>
  Claim C4, as amended. For every connection that the server ends disconnected (a
  rejection at the gate, or a topic that is not found for a first subscriber) and that
  the client does not close while its callbacks are pending, the counter store is left
  exactly as it was before the connection.
\<close>

theorem server_rejection_leaves_store:
  assumes "\<not> connected (fst (connection e (fresh_socket h i) w))"
  shows "redis (snd (connection e (fresh_socket h i) w)) = redis w"
  using assms connection_outcome [of e h i w] by simp

text \<open>
  The theorem for C4 at a connection to the unknown topic \<^verbatim>\<open>nope\<close>: the disconnect
  listener is already registered when the rejection disconnects the socket.
\<close>

theorem server_rejection_leaves_store_witness:
  "\<not> connected (fst (connection env_open (fresh_socket (hs_topic (Some ''nope'')) ''s1'')
          (world_of [(''activePersp:ops'', 3)] [''ops''])))
   \<and> redis (snd (connection env_open (fresh_socket (hs_topic (Some ''nope'')) ''s1'')
          (world_of [(''activePersp:ops'', 3)] [''ops''])))
       = redis (world_of [(''activePersp:ops'', 3)] [''ops''])"
proof -
  have d: "\<not> connected (fst (connection env_open (fresh_socket (hs_topic (Some ''nope'')) ''s1'')
          (world_of [(''activePersp:ops'', 3)] [''ops''])))"
    by code_simp
  from d server_rejection_leaves_store [OF d] show ?thesis by blast
qed

text \<open>
  Against C4 as stated: the store is empty and the client closes the socket while
  \<^verbatim>\<open>findOne\<close> is pending, before any increment. The chain carries on: the namespace is
  created and the counter is incremented for a socket that is gone, so the store has
  changed.
\<close>

theorem client_close_before_increment_mutates_store:
  "connection_closed_after env_open 2 (fresh_socket (hs_topic (Some ''ops'')) ''s1'')
       (world_of [] [])
     = (\<lparr>hs = hs_topic (Some ''ops''), sockId = ''s1'', connected = False, onDisconnect = True\<rparr>,
        \<lparr>redis = [(''activePersp:ops'', 1)], nsps = [''ops''],
         trace = [RGet ''activePersp:ops'', FindOne (Some ''ops''), SocketClosedByClient,
                  RGet ''activePersp:ops'', RDel ''activePersp:ops'', FindOne (Some ''ops''),
                  DeleteNamespace ''ops'', InitializeNamespace ''ops'',
                  NamespaceCreated ''ops'', RIncr ''activePersp:ops'']\<rparr>)
   \<and> redis (snd (connection_closed_after env_open 2
              (fresh_socket (hs_topic (Some ''ops'')) ''s1'') (world_of [] [])))
       \<noteq> redis (world_of [] [])"
  by code_simp

section \<open>Teardown on disconnect\<close>

text \<open>
  Claim C5, as amended. On disconnect of a counted subscriber whose topic still
  resolves in persistent storage, provided no other counter command falls between the
  listener's read of the counter and its write (the store still holds the value read
  when the reply is handled), the topic's counter ends one lower; if that value is not
  positive the counter key is removed and the local channel is retired, otherwise the
  channel is kept. In particular a disconnect at counter 1 removes the key and retires
  the channel.
\<close>

theorem disconnect_counted_subscriber:
  assumes "map_of (redis w) (perspKey (Some t)) = Some n" "1 \<le> n"
    "t \<in> set (perspectives e)"
  shows "map_of (redis (disconnect_numOfConn e (Some t) (Some n) w)) (perspKey (Some t))
           = (if n - 1 \<le> 0 then None else Some (n - 1))
       \<and> (n - 1 \<le> 0 \<longrightarrow> t \<notin> set (nsps (disconnect_numOfConn e (Some t) (Some n) w)))
       \<and> (0 < n - 1 \<longrightarrow> nsps (disconnect_numOfConn e (Some t) (Some n) w) = nsps w)"
  using assms
  by (simp add: disconnect_numOfConn_def disconnect_perspObj_def delAsync_def decrAsync_def
      findOne_def deleteNamespace_def perspective_row_def js_le_ONE_def ONE_def Let_def
      delete_conv' update_conv')

text \<open>
  The theorem for C5 at the last subscriber of \<^verbatim>\<open>ops\<close> (value read 1, still stored)
  and at one of three subscribers (value read 3, still stored).
\<close>

theorem disconnect_counted_subscriber_witness:
  "map_of (redis (disconnect_numOfConn env_open (Some ''ops'') (Some 1)
             (world_of [(''activePersp:ops'', 1)] [''ops'']))) (perspKey (Some ''ops'')) = None
   \<and> ''ops'' \<notin> set (nsps (disconnect_numOfConn env_open (Some ''ops'') (Some 1)
             (world_of [(''activePersp:ops'', 1)] [''ops''])))
   \<and> map_of (redis (disconnect_numOfConn env_open (Some ''ops'') (Some 3)
             (world_of [(''activePersp:ops'', 3)] [''ops'']))) (perspKey (Some ''ops'')) = Some 2
   \<and> nsps (disconnect_numOfConn env_open (Some ''ops'') (Some 3)
             (world_of [(''activePersp:ops'', 3)] [''ops'']))
       = nsps (world_of [(''activePersp:ops'', 3)] [''ops''])"
proof -
  have 1: "map_of (redis (world_of [(''activePersp:ops'', 1)] [''ops''])) (perspKey (Some ''ops''))
         = Some 1"
    by (simp add: world_of_def perspKey_def activePerspPrefix_def)
  have 2: "map_of (redis (world_of [(''activePersp:ops'', 3)] [''ops''])) (perspKey (Some ''ops''))
         = Some 3"
    by (simp add: world_of_def perspKey_def activePerspPrefix_def)
  have 3: "(1::int) \<le> 1" "(1::int) \<le> 3"
    by simp_all
  have 4: "''ops'' \<in> set (perspectives env_open)"
    by (simp add: env_open_def)
  from disconnect_counted_subscriber [OF 1 3(1) 4]
    disconnect_counted_subscriber [OF 2 3(2) 4]
  show ?thesis
    by simp
qed

text \<open>
  Against C5 as stated, twice. First: the counter of \<^verbatim>\<open>ops\<close> is 1 and the process
  holds its channel, but the perspective has been deleted from persistent storage; the
  listener issues no decrement, removes the key, and leaves the channel in the registry.
  Second: the counter is 2 and two subscribers disconnect together, so that both
  listeners have read 2 before either writes; both decrement, the counter ends at 0, and
  the key and the channel stay.
\<close>

theorem teardown_keeps_channel_of_deleted_topic:
  "on_disconnect (env_open\<lparr>perspectives := []\<rparr>) (fresh_socket (hs_topic (Some ''ops'')) ''s1'')
       (world_of [(''activePersp:ops'', 1)] [''ops''])
     = \<lparr>redis = [], nsps = [''ops''],
        trace = [RGet ''activePersp:ops'', RDel ''activePersp:ops'', FindOne (Some ''ops''),
                 Throw ResourceNotFoundError]\<rparr>
   \<and> disconnect_numOfConn env_open (Some ''ops'') (Some 2)
       (disconnect_numOfConn env_open (Some ''ops'') (Some 2)
          (world_of [(''activePersp:ops'', 2)] [''ops'']))
     = \<lparr>redis = [(''activePersp:ops'', 0)], nsps = [''ops''],
        trace = [RDecr ''activePersp:ops'', RDecr ''activePersp:ops'']\<rparr>"
  by code_simp

text \<open>
  Claim C9. In the disconnect listener, when the counter value read is at most 1 (or
  the key is absent), the counter key is deleted before the topic is looked up in
  persistent storage; if the topic is then not found, the channel registry is left as it
  was, no namespace is deleted, and the key stays deleted.
\<close>

theorem teardown_deletes_key_before_resolving:
  assumes "js_le_ONE (map_of (redis w) (perspKey (query_p (hs sock))))"
  shows "occurs_before (RDel (perspKey (query_p (hs sock)))) (FindOne (query_p (hs sock)))
           (trace (on_disconnect e sock (w\<lparr>trace := []\<rparr>)))
       \<and> (perspective_row e (query_p (hs sock)) = None \<longrightarrow>
            nsps (on_disconnect e sock w) = nsps w
          \<and> map_of (redis (on_disconnect e sock w)) (perspKey (query_p (hs sock))) = None
          \<and> DeleteNamespace obj \<notin> set (trace (on_disconnect e sock (w\<lparr>trace := []\<rparr>))))"
  using assms
  by (simp add: on_disconnect_redis on_disconnect_nsps on_disconnect_trace delete_conv')

text \<open>
  The theorem for C9 at the last subscriber of \<^verbatim>\<open>ops\<close>, whose perspective is no
  longer in persistent storage.
\<close>

theorem teardown_deletes_key_before_resolving_witness:
  "occurs_before (RDel (perspKey (query_p (hs (fresh_socket (hs_topic (Some ''ops'')) ''s1'')))))
       (FindOne (query_p (hs (fresh_socket (hs_topic (Some ''ops'')) ''s1''))))
       (trace (on_disconnect (env_open\<lparr>perspectives := []\<rparr>)
          (fresh_socket (hs_topic (Some ''ops'')) ''s1'')
          ((world_of [(''activePersp:ops'', 1)] [''ops''])\<lparr>trace := []\<rparr>)))
   \<and> nsps (on_disconnect (env_open\<lparr>perspectives := []\<rparr>)
          (fresh_socket (hs_topic (Some ''ops'')) ''s1'')
          (world_of [(''activePersp:ops'', 1)] [''ops'']))
       = nsps (world_of [(''activePersp:ops'', 1)] [''ops''])
   \<and> map_of (redis (on_disconnect (env_open\<lparr>perspectives := []\<rparr>)
          (fresh_socket (hs_topic (Some ''ops'')) ''s1'')
          (world_of [(''activePersp:ops'', 1)] [''ops''])))
        (perspKey (query_p (hs (fresh_socket (hs_topic (Some ''ops'')) ''s1'')))) = None"
proof -
  have 1: "js_le_ONE (map_of (redis (world_of [(''activePersp:ops'', 1)] [''ops'']))
             (perspKey (query_p (hs (fresh_socket (hs_topic (Some ''ops'')) ''s1'')))))"
    by code_simp
  have 2: "perspective_row (env_open\<lparr>perspectives := []\<rparr>)
             (query_p (hs (fresh_socket (hs_topic (Some ''ops'')) ''s1''))) = None"
    by code_simp
  from teardown_deletes_key_before_resolving [OF 1,
      of "env_open\<lparr>perspectives := []\<rparr>" "''ops''"] 2
  show ?thesis by blast
qed

section \<open>Start-up reconciliation\<close>

text \<open>
  Claim C3 asks that reconciliation create a channel only for topics whose stored
  counter is positive. At a store in which the counter of \<^verbatim>\<open>ops\<close> is 0,
  \<^verbatim>\<open>init\<close> reads the value, does not look at it, and creates the channel.
\<close>

theorem reconciliation_ignores_counter_value:
  "init env_open (world_of [(''activePersp:ops'', 0)] [])
     = \<lparr>redis = [(''activePersp:ops'', 0)], nsps = [''ops''],
        trace = [RKeys ''activePersp:*'', RGet ''activePersp:ops'', FindOne (Some ''ops''),
                 InitializeNamespace ''ops'', NamespaceCreated ''ops'']\<rparr>"
  by code_simp

section \<open>A handshake without the topic parameter\<close>

text \<open>
  Claim C6 asks that a connection without the query parameter \<^verbatim>\<open>p\<close> stay connected
  and do no subscription work. The handler treats the missing name as a topic: it reads
  the key \<^verbatim>\<open>activePersp:undefined\<close> and asks persistent storage for the name
  \<^verbatim>\<open>undefined\<close>. When storage answers with nothing the socket is disconnected; when it
  answers with a row, a namespace is created and the key \<^verbatim>\<open>activePersp:undefined\<close> is
  incremented.
\<close>

theorem no_topic_parameter_subscribes_undefined:
  "connection env_open (fresh_socket (hs_topic None) ''s1'') (world_of [] [])
     = (\<lparr>hs = hs_topic None, sockId = ''s1'', connected = False, onDisconnect = True\<rparr>,
        \<lparr>redis = [], nsps = [],
         trace = [RGet ''activePersp:undefined'', FindOne None, Throw ResourceNotFoundError,
                  SocketDisconnect, RGet ''activePersp:undefined'',
                  RDel ''activePersp:undefined'', FindOne None,
                  Throw ResourceNotFoundError]\<rparr>)
   \<and> connection (env_open\<lparr>findOneUndefined := Some ''ops''\<rparr>)
       (fresh_socket (hs_topic None) ''s1'') (world_of [] [])
     = (\<lparr>hs = hs_topic None, sockId = ''s1'', connected = True, onDisconnect = True\<rparr>,
        \<lparr>redis = [(''activePersp:undefined'', 1)], nsps = [''ops''],
         trace = [RGet ''activePersp:undefined'', FindOne None, InitializeNamespace ''ops'',
                  NamespaceCreated ''ops'', RIncr ''activePersp:undefined'']\<rparr>)"
  by code_simp

section \<open>Two first subscribers at once\<close>

lemma race_inv_sym: "race_inv t sa sb w = race_inv t sb sa w"
  by (auto simp: race_inv_def finished_count_def)

lemma count_list_append: "count_list (xs @ ys) x = count_list xs x + count_list ys x"
  by (induction xs) auto

lemma in_set_count: "x \<in> set xs \<longleftrightarrow> 0 < count_list xs x"
  by (induction xs) auto

text \<open>One callback of a first subscriber keeps the invariant and brings its chain closer
  to the end; the socket itself is not changed.\<close>

lemma race_step:
  assumes "race_inv t sa sb w" "query_p (hs a) = Some t" "t \<in> set (perspectives e)"
  shows "case resume e (sa, a, w) of (sa', a', w') \<Rightarrow>
           a' = a \<and> race_inv t sa' sb w' \<and> stage_rank sa' \<le> stage_rank sa - 1"
proof -
  from assms(1) have "first_stage t sa" by (simp add: race_inv_def)
  then consider "sa = AwaitNumOfClients None" | "sa = AwaitPerspObj (Some t)" | "sa = Finished"
    by (auto simp: first_stage_def)
  then show ?thesis
  proof cases
    case 1
    with assms show ?thesis
      by (simp add: then_numOfClients_def js_not_def findOne_def perspective_row_def Let_def
          race_inv_def first_stage_def finished_count_def count_list_append)
  next
    case 2
    with assms show ?thesis
      by (auto simp: then_perspObj_def incrAsync_def initializeNamespace_def Let_def
          race_inv_def first_stage_def finished_count_def count_list_append in_set_count
          update_conv' split: if_splits)
  next
    case 3
    with assms show ?thesis by simp
  qed
qed

lemma interleave_race:
  assumes "race_inv t sa sb w" "query_p (hs a) = Some t" "query_p (hs b) = Some t"
    "t \<in> set (perspectives e)"
    "stage_rank sa \<le> count_list sch True" "stage_rank sb \<le> count_list sch False"
  shows "\<exists>w'. interleave e sch (sa, a) (sb, b) w = ((Finished, a), (Finished, b), w')
              \<and> race_inv t Finished Finished w'"
  using assms
proof (induction sch arbitrary: sa sb w)
  case Nil
  then show ?case
    by (cases sa; cases sb) simp_all
next
  case (Cons first sch)
  show ?case
  proof (cases first)
    case True
    obtain sa' a' w' where r: "resume e (sa, a, w) = (sa', a', w')"
      by (cases "resume e (sa, a, w)")
    with race_step [OF Cons.prems(1) Cons.prems(2) Cons.prems(4)]
    have s: "a' = a" "race_inv t sa' sb w'" "stage_rank sa' \<le> stage_rank sa - 1"
      by simp_all
    have "stage_rank sa' \<le> count_list sch True" "stage_rank sb \<le> count_list sch False"
      using s(3) Cons.prems(5,6) True by simp_all
    from Cons.IH [OF s(2) Cons.prems(2) Cons.prems(3) Cons.prems(4) this]
    show ?thesis
      using True r s(1) by simp
  next
    case False
    obtain sb' b' w' where r: "resume e (sb, b, w) = (sb', b', w')"
      by (cases "resume e (sb, b, w)")
    from Cons.prems(1) have "race_inv t sb sa w"
      by (simp add: race_inv_sym)
    from race_step [OF this Cons.prems(3) Cons.prems(4)] r
    have s: "b' = b" "race_inv t sa sb' w'" "stage_rank sb' \<le> stage_rank sb - 1"
      by (simp_all add: race_inv_sym)
    have "stage_rank sa \<le> count_list sch True" "stage_rank sb' \<le> count_list sch False"
      using s(3) Cons.prems(5,6) False by simp_all
    from Cons.IH [OF s(2) Cons.prems(2) Cons.prems(3) Cons.prems(4) this]
    show ?thesis
      using False r s(1) by simp
  qed
qed

text \<open>
  Claim C7. When two sockets of one process are both first subscribers of the same
  topic (each was told that the counter key is absent), then in whatever order their
  callbacks alternate, once both chains have run their two callbacks: both have called
  the ensure step, exactly one channel has been created, the registry holds exactly one
  entry for the topic, which both use, and the counter is 2.
\<close>

theorem concurrent_first_subscribers_one_channel:
  assumes "query_p (hs a) = Some t" "query_p (hs b) = Some t" "t \<in> set (perspectives e)"
    "t \<notin> set (nsps w)" "map_of (redis w) (perspKey (Some t)) = None"
    "2 \<le> count_list sch True" "2 \<le> count_list sch False"
  shows "\<exists>w'. concurrent_first_subscribers e sch a b (w\<lparr>trace := []\<rparr>)
                = ((Finished, a), (Finished, b), w')
            \<and> count_list (trace w') (InitializeNamespace t) = 2
            \<and> count_list (trace w') (NamespaceCreated t) = 1
            \<and> count_list (nsps w') t = 1
            \<and> map_of (redis w') (perspKey (Some t)) = Some 2"
proof -
  have "race_inv t (AwaitNumOfClients None) (AwaitNumOfClients None) (w\<lparr>trace := []\<rparr>)"
    using assms(4,5) by (simp add: race_inv_def first_stage_def finished_count_def)
  from interleave_race [OF this assms(1,2,3), of sch] assms(6,7)
  show ?thesis
    by (auto simp: concurrent_first_subscribers_def race_inv_def finished_count_def)
qed

text \<open>
  The theorem for C7 at two sockets that subscribe to \<^verbatim>\<open>ops\<close> on an empty store, the
  second overtaking the first between its two callbacks.
\<close>

theorem concurrent_first_subscribers_one_channel_witness:
  "\<exists>w'. concurrent_first_subscribers env_open [True, False, False, True]
           (fresh_socket (hs_topic (Some ''ops'')) ''s1'')
           (fresh_socket (hs_topic (Some ''ops'')) ''s2'') ((world_of [] [])\<lparr>trace := []\<rparr>)
         = ((Finished, fresh_socket (hs_topic (Some ''ops'')) ''s1''),
            (Finished, fresh_socket (hs_topic (Some ''ops'')) ''s2''), w')
       \<and> count_list (trace w') (InitializeNamespace ''ops'') = 2
       \<and> count_list (trace w') (NamespaceCreated ''ops'') = 1
       \<and> count_list (nsps w') ''ops'' = 1
       \<and> map_of (redis w') (perspKey (Some ''ops'')) = Some 2"
proof -
  have 1: "query_p (hs (fresh_socket (hs_topic (Some ''ops'')) ''s1'')) = Some ''ops''"
    by (simp add: fresh_socket_def hs_topic_def)
  have 2: "query_p (hs (fresh_socket (hs_topic (Some ''ops'')) ''s2'')) = Some ''ops''"
    by (simp add: fresh_socket_def hs_topic_def)
  have 3: "''ops'' \<in> set (perspectives env_open)"
    by (simp add: env_open_def)
  have 4: "''ops'' \<notin> set (nsps (world_of [] []))"
    by (simp add: world_of_def)
  have 5: "map_of (redis (world_of [] [])) (perspKey (Some ''ops'')) = None"
    by (simp add: world_of_def)
  have 6: "2 \<le> count_list [True, False, False, True] True"
    by simp
  have 7: "2 \<le> count_list [True, False, False, True] False"
    by simp
  show ?thesis
    by (rule concurrent_first_subscribers_one_channel [OF 1 2 3 4 5 6 7])
qed

end
